theory Spec2Isabelle
  imports Complex_Main "HOL-Library.Word"
begin

section \<open>Element types and machine arithmetic\<close>

text \<open>
  The element types and devices that the tutorial sources name (\<^verbatim>\<open>int16_t\<close>,
  \<^verbatim>\<open>int32_t\<close>, \<^verbatim>\<open>uint8_t\<close>, \<^verbatim>\<open>uint32_t\<close>, \<^verbatim>\<open>float\<close>; \<^verbatim>\<open>nb::device::cpu\<close>,
  \<^verbatim>\<open>nb::device::cuda\<close>), and the 64-bit float of the specification's examples.
\<close>

datatype dtype = Int16 | Int32 | UInt8 | UInt32 | Float32 | Float64

datatype device = CPU | CUDA

text \<open>
  \<^verbatim>\<open>size_t\<close> is a 64-bit unsigned integer: values are naturals below \<open>2 ^ 64\<close> and
  products and sums wrap around.
\<close>

definition size_mul :: "nat \<Rightarrow> nat \<Rightarrow> nat" where
  "size_mul a b = (a * b) mod 2 ^ 64"

definition size_add :: "nat \<Rightarrow> nat \<Rightarrow> nat" where
  "size_add a b = (a + b) mod 2 ^ 64"

definition size_sub :: "nat \<Rightarrow> nat \<Rightarrow> nat" where
  "size_sub a b = (a + 2 ^ 64 - b mod 2 ^ 64) mod 2 ^ 64"

text \<open>
  A \<^verbatim>\<open>float\<close> is an IEEE 754 binary32 value: a finite value (kept as the rational it
  denotes; the sign of zero is not tracked), an infinity with its sign (\<open>True\<close> for
  the negative one), or a NaN.
\<close>

datatype float32 = Finite rat | Infinity bool | NaN

fun bit_length :: "nat \<Rightarrow> nat" where
  "bit_length n = (if n = 0 then 0 else Suc (bit_length (n div 2)))"

declare bit_length.simps [simp del]

text \<open>
  Rounding a natural to 24 significant bits, to nearest and ties to even (the IEEE 754
  default, which the conversion instructions of the tutorial's targets follow): the
  value of \<^verbatim>\<open>static_cast<float>(n)\<close> for a \<^verbatim>\<open>size_t\<close>. Every natural up to \<open>2 ^ 24\<close>
  is kept; \<open>2 ^ 24 + 1\<close> is the first that is not a binary32 value.
\<close>

definition round_sig24 :: "nat \<Rightarrow> nat" where
  "round_sig24 n =
     (if n < 2 ^ 24 then n
      else let sh = bit_length n - 24; q = n div 2 ^ sh; r = n mod 2 ^ sh; half = 2 ^ (sh - 1)
           in if r < half \<or> (r = half \<and> even q) then q * 2 ^ sh else (q + 1) * 2 ^ sh)"

definition float_of_size :: "nat \<Rightarrow> float32" where
  "float_of_size n = Finite (of_nat (round_sig24 n))"

text \<open>
  The expression \<^verbatim>\<open>static_cast<float>(n) + 0.5f\<close>. The cast gives the integer
  \<open>x = round_sig24 n\<close>; the exact sum is \<open>(2 * x + 1) / 2\<close>, and rounding it to 24
  significant bits rounds its numerator, a power of two in the denominator changing
  nothing.
\<close>

definition float_of_size_plus_half :: "nat \<Rightarrow> float32" where
  "float_of_size_plus_half n = Finite (of_nat (round_sig24 (2 * round_sig24 n + 1)) / 2)"

text \<open>
  The product \<^verbatim>\<open>x * 2.0f\<close>: doubling a binary32 value is exact unless the result
  leaves the finite range, whose largest member is below \<open>2 ^ 128\<close>.
\<close>

fun float_times_two :: "float32 \<Rightarrow> float32" where
  "float_times_two (Finite q) = (if \<bar>q\<bar> < 2 ^ 127 then Finite (2 * q) else Infinity (q < 0))"
| "float_times_two (Infinity s) = Infinity s"
| "float_times_two NaN = NaN"

text \<open>
  A cell of a buffer whose element type is only known at run time: a binary32 value, a
  32-bit integer, or an element of another type (by its bit pattern).
\<close>

datatype elem = F32 float32 | I32 "32 word" | Raw nat

section \<open>Failures\<close>

text \<open>
  The layout errors with which the boundary rejects an array, the errors of a misused
  ownership token, and the ways a call can fail: rejected at the boundary, a C++
  \<^verbatim>\<open>std::runtime_error\<close>, an access outside the buffer (undefined behaviour in C++, a
  failure here), a lifetime error, or an allocation that \<^verbatim>\<open>new\<close> cannot serve
  (\<^verbatim>\<open>std::bad_alloc\<close> and its subclass \<^verbatim>\<open>std::bad_array_new_length\<close>).
\<close>

datatype layout_error =
    DtypeMismatch
  | DeviceMismatch
  | RankMismatch
  | ShapeMismatch nat nat nat
  | LayoutMismatch

datatype lifetime_error = DoubleRelease | UseAfterRelease

datatype failure =
    Rejected layout_error
  | RuntimeError string
  | OutOfBounds
  | Lifetime lifetime_error
  | BadAlloc

section \<open>Memory and loops\<close>

text \<open>
  The memory that an array's data pointer addresses: the cells from the pointer on, and
  the number of element accesses made so far. The cells before the pointer, which only a
  view with a negative stride addresses, are not held: an access to one of them is
  reported as out of bounds.
\<close>

record 'a memory =
  cells :: "'a list"
  accesses :: nat

definition load :: "int \<Rightarrow> 'a memory \<Rightarrow> failure + ('a \<times> 'a memory)" where
  "load off m =
     (if 0 \<le> off \<and> nat off < length (cells m)
      then Inr (cells m ! nat off, m\<lparr>accesses := Suc (accesses m)\<rparr>)
      else Inl OutOfBounds)"

definition store :: "int \<Rightarrow> 'a \<Rightarrow> 'a memory \<Rightarrow> failure + 'a memory" where
  "store off v m =
     (if 0 \<le> off \<and> nat off < length (cells m)
      then Inr (m\<lparr>cells := (cells m)[nat off := v], accesses := Suc (accesses m)\<rparr>)
      else Inl OutOfBounds)"

text \<open>
  The loop \<^verbatim>\<open>for (size_t k = lo; k < n; ++k) body\<close>, stopping at the first failure.
\<close>

function for_loop :: "nat \<Rightarrow> nat \<Rightarrow> (nat \<Rightarrow> 's \<Rightarrow> failure + 's) \<Rightarrow> 's \<Rightarrow> failure + 's" where
  "for_loop k n body s =
     (if k < n
      then (case body k s of Inl e \<Rightarrow> Inl e | Inr s' \<Rightarrow> for_loop (Suc k) n body s')
      else Inr s)"
  by pat_completeness auto
termination
  by (relation "measure (\<lambda>(k, n, body, s). n - k)") auto

declare for_loop.simps [simp del]

section \<open>Array descriptors and layout constraints\<close>

text \<open>
  The metadata of a foreign array: element type, device, extents and strides (in
  elements, signed). The memory behind the data pointer is passed beside it.
\<close>

record descriptor =
  dtype :: dtype
  device :: device
  shape :: "nat list"
  strides :: "int list"

definition ndim :: "descriptor \<Rightarrow> nat" where
  "ndim d = length (shape d)"

datatype order = RowMajor | ColMajor

fun row_major_strides :: "nat list \<Rightarrow> int list" where
  "row_major_strides [] = []"
| "row_major_strides (n # ns) = int (prod_list ns) # row_major_strides ns"

definition packed_strides :: "order \<Rightarrow> nat list \<Rightarrow> int list" where
  "packed_strides ord ns =
     (case ord of RowMajor \<Rightarrow> row_major_strides ns
      | ColMajor \<Rightarrow> rev (row_major_strides (rev ns)))"

text \<open>
  Modelled from the spec: \<^verbatim>\<open>is_contiguous\<close> (section 4.1), which the sources use
  through the annotation \<^verbatim>\<open>nb::c_contig\<close> and the layouts of \<^verbatim>\<open>Eigen::Ref\<close> and whose
  code is the binding library's. The strides are those of the packing in the given order
  with no gaps; an axis of extent 1 is never stepped along, so its stride is free; an
  array with a zero extent has no elements and is contiguous under both orders.
\<close>

definition is_contiguous :: "descriptor \<Rightarrow> order \<Rightarrow> bool" where
  "is_contiguous d ord =
     (length (strides d) = length (shape d) \<and>
      (0 \<in> set (shape d) \<or>
       list_all (\<lambda>(n, s, e). n = 1 \<or> s = e)
         (zip (shape d) (zip (strides d) (packed_strides ord (shape d))))))"

text \<open>
  Modelled from the spec: the layout constraint (section 3) that a typed array
  parameter declares, and \<^verbatim>\<open>validate\<close> (section 4.3), which the binding library runs
  at the boundary before the function body. A field that is \<open>None\<close> demands nothing.
\<close>

record constraint =
  want_dtype :: "dtype option"
  want_device :: "device option"
  want_ndim :: "nat option"
  want_extents :: "nat option list"
  want_order :: "order option"

fun shape_mismatch :: "nat \<Rightarrow> nat option list \<Rightarrow> nat list \<Rightarrow> layout_error option" where
  "shape_mismatch k (Some e # es) (n # ns) =
     (if n \<noteq> e then Some (ShapeMismatch k e n) else shape_mismatch (Suc k) es ns)"
| "shape_mismatch k (None # es) (n # ns) = shape_mismatch (Suc k) es ns"
| "shape_mismatch k es ns = None"

definition validate :: "descriptor \<Rightarrow> constraint \<Rightarrow> layout_error + descriptor" where
  "validate d c =
     (if want_dtype c \<noteq> None \<and> want_dtype c \<noteq> Some (dtype d) then Inl DtypeMismatch
      else if want_device c \<noteq> None \<and> want_device c \<noteq> Some (device d) then Inl DeviceMismatch
      else if want_ndim c \<noteq> None \<and> want_ndim c \<noteq> Some (ndim d) then Inl RankMismatch
      else case shape_mismatch 0 (want_extents c) (shape d) of
        Some e \<Rightarrow> Inl e
      | None \<Rightarrow>
          (case want_order c of
            None \<Rightarrow> Inr d
          | Some ord \<Rightarrow> if is_contiguous d ord then Inr d else Inl LayoutMismatch))"

text \<open>
  Modelled from the spec: the typed view (sections 3 and 4.4), whose code is the binding
  library's. A view of rank 2 exists only for a descriptor of rank 2; it copies the
  extents and strides, and \<^verbatim>\<open>view(i, j)\<close> is the cell at offset
  \<open>i * stride0 + j * stride1\<close>.
\<close>

record view2d =
  shape0 :: nat
  shape1 :: nat
  stride0 :: int
  stride1 :: int

definition view_2d :: "descriptor \<Rightarrow> view2d option" where
  "view_2d d =
     (if length (shape d) = 2 \<and> length (strides d) = 2
      then Some \<lparr>shape0 = shape d ! 0, shape1 = shape d ! 1,
                 stride0 = strides d ! 0, stride1 = strides d ! 1\<rparr>
      else None)"

definition view_offset :: "view2d \<Rightarrow> nat \<Rightarrow> nat \<Rightarrow> int" where
  "view_offset v i j = int i * stride0 v + int j * stride1 v"

text \<open>
  Direct access \<^verbatim>\<open>arr(i, j, ...)\<close> through the descriptor: the offset is the sum of
  index times stride over the axes.
\<close>

definition element_offset :: "descriptor \<Rightarrow> nat list \<Rightarrow> int" where
  "element_offset d idx = sum_list (map2 (\<lambda>i s. int i * s) idx (strides d))"

section \<open>The array functions of the tutorial (ndarray.cpp)\<close>

text \<open>
  The parameter type
  \<^verbatim>\<open>nb::ndarray<float, nb::ndim<2>, nb::c_contig, nb::device::cpu>\<close> as a constraint.
\<close>

definition float_2d_c_contig_cpu :: constraint where
  "float_2d_c_contig_cpu =
     \<lparr>want_dtype = Some Float32, want_device = Some CPU, want_ndim = Some 2,
      want_extents = [], want_order = Some RowMajor\<rparr>"

text \<open>The parameter type \<^verbatim>\<open>nb::ndarray<nb::c_contig, nb::device::cpu>\<close>.\<close>

definition any_c_contig_cpu :: constraint where
  "any_c_contig_cpu =
     \<lparr>want_dtype = None, want_device = Some CPU, want_ndim = None,
      want_extents = [], want_order = Some RowMajor\<rparr>"

text \<open>
  \<^verbatim>\<open>fill_array_optimized\<close>: takes a view of the array and stores
  \<^verbatim>\<open>static_cast<float>(i * j)\<close> at \<^verbatim>\<open>view(i, j)\<close> for every \<open>i\<close> below
  \<^verbatim>\<open>view.shape(0)\<close> and \<open>j\<close> below \<^verbatim>\<open>view.shape(1)\<close>. The product
  \<^verbatim>\<open>i * j\<close> is a \<^verbatim>\<open>size_t\<close> product. A descriptor that passes the boundary has rank
  2, so the view exists.
\<close>

definition fill_array_optimized :: "descriptor \<Rightarrow> float32 memory \<Rightarrow> failure + float32 memory" where
  "fill_array_optimized arr m =
     (case validate arr float_2d_c_contig_cpu of
        Inl e \<Rightarrow> Inl (Rejected e)
      | Inr _ \<Rightarrow>
          (case view_2d arr of
             None \<Rightarrow> Inl (Rejected RankMismatch)
           | Some view \<Rightarrow>
               for_loop 0 (shape0 view) (\<lambda>i.
                 for_loop 0 (shape1 view) (\<lambda>j.
                   store (view_offset view i j) (float_of_size (size_mul i j)))) m))"

text \<open>
  \<^verbatim>\<open>fill_array_regular\<close>: the same loops, reading the extents from the array and
  storing through \<^verbatim>\<open>arr(i, j)\<close>.
\<close>

definition fill_array_regular :: "descriptor \<Rightarrow> float32 memory \<Rightarrow> failure + float32 memory" where
  "fill_array_regular arr m =
     (case validate arr float_2d_c_contig_cpu of
        Inl e \<Rightarrow> Inl (Rejected e)
      | Inr _ \<Rightarrow>
          for_loop 0 (shape arr ! 0) (\<lambda>i.
            for_loop 0 (shape arr ! 1) (\<lambda>j.
              store (element_offset arr [i, j]) (float_of_size (size_mul i j)))) m)"

text \<open>
  \<^verbatim>\<open>fill_array_specialized\<close>: tests the element type and the rank at run time, in
  the order of the source; the float branch stores
  \<^verbatim>\<open>static_cast<float>(i * j) + 0.5f\<close>, the int32 branch
  \<^verbatim>\<open>static_cast<int32_t>(i + j)\<close>, and the last branch touches nothing. The result
  is the returned string and the memory.
\<close>

definition fill_array_specialized ::
    "descriptor \<Rightarrow> elem memory \<Rightarrow> failure + (string \<times> elem memory)" where
  "fill_array_specialized arr m =
     (case validate arr any_c_contig_cpu of
        Inl e \<Rightarrow> Inl (Rejected e)
      | Inr _ \<Rightarrow>
          if dtype arr = Float32 \<and> ndim arr = 2 then
            (case view_2d arr of
               None \<Rightarrow> Inl (Rejected RankMismatch)
             | Some view \<Rightarrow>
                 (case for_loop 0 (shape0 view) (\<lambda>i.
                         for_loop 0 (shape1 view) (\<lambda>j.
                           store (view_offset view i j)
                             (F32 (float_of_size_plus_half (size_mul i j))))) m of
                    Inl e \<Rightarrow> Inl e
                  | Inr m' \<Rightarrow> Inr (''Used specialized 2D float view'', m')))
          else if dtype arr = Int32 \<and> ndim arr = 2 then
            (case view_2d arr of
               None \<Rightarrow> Inl (Rejected RankMismatch)
             | Some view \<Rightarrow>
                 (case for_loop 0 (shape0 view) (\<lambda>i.
                         for_loop 0 (shape1 view) (\<lambda>j.
                           store (view_offset view i j)
                             (I32 (word_of_nat (size_add i j))))) m of
                    Inl e \<Rightarrow> Inl e
                  | Inr m' \<Rightarrow> Inr (''Used specialized 2D int32 view'', m')))
          else Inr (''Unsupported array type or dimension'', m))"

text \<open>
  The parameter type \<^verbatim>\<open>RGBImage\<close>, that is
  \<^verbatim>\<open>nb::ndarray<uint8_t, nb::shape<-1, -1, 3>, nb::device::cpu>\<close>.
\<close>

definition rgb_image :: constraint where
  "rgb_image =
     \<lparr>want_dtype = Some UInt8, want_device = Some CPU, want_ndim = Some 3,
      want_extents = [None, None, Some 3], want_order = None\<rparr>"

text \<open>
  \<^verbatim>\<open>process_rgb_image\<close>: for every pixel and channel, reads \<^verbatim>\<open>data(y, x, ch)\<close>,
  doubles it as an \<^verbatim>\<open>int\<close>, takes the minimum with 255 and stores it back as a
  \<^verbatim>\<open>uint8_t\<close>.
\<close>

definition process_rgb_image :: "descriptor \<Rightarrow> 8 word memory \<Rightarrow> failure + 8 word memory" where
  "process_rgb_image data m =
     (case validate data rgb_image of
        Inl e \<Rightarrow> Inl (Rejected e)
      | Inr _ \<Rightarrow>
          for_loop 0 (shape data ! 0) (\<lambda>y.
            for_loop 0 (shape data ! 1) (\<lambda>x.
              for_loop 0 3 (\<lambda>ch m1.
                (case load (element_offset data [y, x, ch]) m1 of
                   Inl e \<Rightarrow> Inl e
                 | Inr (v, m2) \<Rightarrow>
                     store (element_offset data [y, x, ch])
                       (word_of_int (min 255 (uint v * 2))) m2)))) m)"

section \<open>The vector mapping of the tutorial (eigen.cpp)\<close>

text \<open>The parameter type \<^verbatim>\<open>nb::ndarray<float>\<close>: only the element type is fixed.\<close>

definition float_array :: constraint where
  "float_array =
     \<lparr>want_dtype = Some Float32, want_device = None, want_ndim = None,
      want_extents = [], want_order = None\<rparr>"

text \<open>
  \<^verbatim>\<open>map_vector\<close>: throws unless the array has rank 1; then maps the
  \<^verbatim>\<open>array.shape(0)\<close> consecutive floats that start at \<^verbatim>\<open>array.data()\<close> as an Eigen
  vector and multiplies each coefficient by \<^verbatim>\<open>2.0f\<close> in place. The strides of the
  array are not read.
\<close>

definition map_vector :: "descriptor \<Rightarrow> float32 memory \<Rightarrow> failure + float32 memory" where
  "map_vector array m =
     (case validate array float_array of
        Inl e \<Rightarrow> Inl (Rejected e)
      | Inr _ \<Rightarrow>
          if ndim array \<noteq> 1 then Inl (RuntimeError ''Expected a 1D array'')
          else
            for_loop 0 (shape array ! 0) (\<lambda>k m1.
              (case load (int k) m1 of
                 Inl e \<Rightarrow> Inl e
               | Inr (v, m2) \<Rightarrow> store (int k) (float_times_two v) m2)) m)"

section \<open>The heap and ownership tokens\<close>

text \<open>
  The objects that the tutorial allocates with \<^verbatim>\<open>new\<close>: an array of floats, and a
  \<^verbatim>\<open>SharedArrays\<close> structure with its two vectors. The heap lists the allocations by
  address; a freed address holds \<open>None\<close>. Entering an object into the heap is
  \<open>allocate\<close>; the small allocations of fixed size are taken to succeed.
\<close>

datatype object = FloatArray "float32 list" | SharedArrays "float32 list" "float32 list"

type_synonym heap = "object option list"

definition allocate :: "object \<Rightarrow> heap \<Rightarrow> nat \<times> heap" where
  "allocate obj h = (length h, h @ [Some obj])"

definition deallocate :: "nat \<Rightarrow> heap \<Rightarrow> heap" where
  "deallocate p h = h[p := None]"

text \<open>
  The expression \<^verbatim>\<open>new float[n]\<close>, whose size depends on the arguments of the call. It
  asks for \<open>n * 4\<close> bytes and throws when that is not below \<open>2 ^ 63\<close> (no object is
  larger than \<^verbatim>\<open>PTRDIFF_MAX\<close> bytes, and a byte count that does not fit \<^verbatim>\<open>size_t\<close> is
  refused) or exceeds \<open>max_bytes\<close>, the largest request that the allocator can serve at
  the time of the call. The new cells hold indeterminate values, written \<open>NaN\<close> here.
\<close>

definition new_float_array :: "nat \<Rightarrow> nat \<Rightarrow> heap \<Rightarrow> failure + (nat \<times> heap)" where
  "new_float_array max_bytes n h =
     (if n * 4 < 2 ^ 63 \<and> n * 4 \<le> max_bytes
      then Inr (allocate (FloatArray (replicate n NaN)) h)
      else Inl BadAlloc)"

text \<open>
  A data pointer: to the floats of an array allocation, or to the storage of the first or
  the second vector of a \<^verbatim>\<open>SharedArrays\<close> allocation. Reading through a pointer gives the
  floats it addresses, or nothing once the allocation is freed.
\<close>

datatype pointer = ArrayData nat | Vec1Data nat | Vec2Data nat

fun deref :: "heap \<Rightarrow> pointer \<Rightarrow> float32 list option" where
  "deref h (ArrayData p) =
     (if p < length h then (case h ! p of Some (FloatArray xs) \<Rightarrow> Some xs | _ \<Rightarrow> None) else None)"
| "deref h (Vec1Data p) =
     (if p < length h then (case h ! p of Some (SharedArrays v1 v2) \<Rightarrow> Some v1 | _ \<Rightarrow> None)
      else None)"
| "deref h (Vec2Data p) =
     (if p < length h then (case h ! p of Some (SharedArrays v1 v2) \<Rightarrow> Some v2 | _ \<Rightarrow> None)
      else None)"

text \<open>
  Modelled from the spec: the ownership token (sections 3 and 4.2), which the sources
  create as an \<^verbatim>\<open>nb::capsule\<close> and whose reference counting is the host runtime's. A
  token pairs an opaque pointer with a release callback and counts its holders;
  \<open>fired\<close> counts the invocations of the callback. A token whose count has reached
  zero is invalid. The world is the heap and the one token under study.
\<close>

record token =
  context_ptr :: nat
  release :: "nat \<Rightarrow> heap \<Rightarrow> heap"
  refcount :: nat
  fired :: nat

record world =
  heap :: heap
  owner :: token

definition make_owner :: "nat \<Rightarrow> (nat \<Rightarrow> heap \<Rightarrow> heap) \<Rightarrow> token" where
  "make_owner p rel = \<lparr>context_ptr = p, release = rel, refcount = 1, fired = 0\<rparr>"

definition acquire_token :: "world \<Rightarrow> lifetime_error + world" where
  "acquire_token w =
     (if refcount (owner w) = 0 then Inl UseAfterRelease
      else Inr (w\<lparr>owner := (owner w)\<lparr>refcount := Suc (refcount (owner w))\<rparr>\<rparr>))"

definition drop_token :: "world \<Rightarrow> lifetime_error + world" where
  "drop_token w =
     (if refcount (owner w) = 0 then Inl DoubleRelease
      else if refcount (owner w) - 1 = 0
      then Inr \<lparr>heap = release (owner w) (context_ptr (owner w)) (heap w),
                owner = (owner w)\<lparr>refcount := 0, fired := Suc (fired (owner w))\<rparr>\<rparr>
      else Inr (w\<lparr>owner := (owner w)\<lparr>refcount := refcount (owner w) - 1\<rparr>\<rparr>))"

text \<open>
  A history of operations on the token by its holders. A misuse is reported and changes
  nothing, so the history goes on from the same world.
\<close>

datatype token_op = Acquire | Drop

definition apply_op :: "token_op \<Rightarrow> world \<Rightarrow> lifetime_error + world" where
  "apply_op x w = (case x of Acquire \<Rightarrow> acquire_token w | Drop \<Rightarrow> drop_token w)"

fun run_ops :: "token_op list \<Rightarrow> world \<Rightarrow> world" where
  "run_ops [] w = w"
| "run_ops (x # xs) w = (case apply_op x w of Inl e \<Rightarrow> run_ops xs w | Inr w' \<Rightarrow> run_ops xs w')"

section \<open>Creating arrays and handing them off (ndarray.cpp)\<close>

text \<open>An array returned to the caller: its descriptor and its data pointer.\<close>

record exported =
  desc :: descriptor
  data :: pointer

text \<open>
  \<^verbatim>\<open>create_2d_array\<close>: allocates \<^verbatim>\<open>rows * cols\<close> floats (a \<^verbatim>\<open>size_t\<close> product) with
  \<^verbatim>\<open>new float[rows * cols]\<close>, which throws when it cannot be served, stores
  \<^verbatim>\<open>(float) i\<close> in cell \<open>i\<close> for every \<open>i\<close> below \<^verbatim>\<open>rows * cols\<close>, creates the capsule
  \<^verbatim>\<open>owner\<close> whose callback is \<^verbatim>\<open>delete[]\<close> of the allocation, and returns an array of
  shape \<^verbatim>\<open>{rows, cols}\<close> that holds a reference to the capsule; the local handle
  \<^verbatim>\<open>owner\<close> is given up at the return.
\<close>

definition create_2d_array ::
    "nat \<Rightarrow> nat \<Rightarrow> nat \<Rightarrow> heap \<Rightarrow> failure + (exported \<times> world)" where
  "create_2d_array max_bytes rows cols h =
     (let n = size_mul rows cols
      in case new_float_array max_bytes n h of
           Inl e \<Rightarrow> Inl e
         | Inr (p, h0) \<Rightarrow>
             (case for_loop 0 n (\<lambda>i. store (int i) (float_of_size i))
                     \<lparr>cells = replicate n NaN, accesses = 0\<rparr> of
                Inl e \<Rightarrow> Inl e
              | Inr m \<Rightarrow>
                  let h1 = h0[p := Some (FloatArray (cells m))];
                      w = \<lparr>heap = h1, owner = make_owner p deallocate\<rparr>
                  in case acquire_token w of
                       Inl e \<Rightarrow> Inl (Lifetime e)
                     | Inr w1 \<Rightarrow>
                         (case drop_token w1 of
                            Inl e \<Rightarrow> Inl (Lifetime e)
                          | Inr w2 \<Rightarrow>
                              Inr (\<lparr>desc = \<lparr>dtype = Float32, device = CPU,
                                             shape = [rows, cols],
                                             strides = row_major_strides [rows, cols]\<rparr>,
                                    data = ArrayData p\<rparr>, w2))))"

text \<open>
  \<^verbatim>\<open>return_multiple_arrays\<close>: fills a vector of 5 floats with \<open>i\<close> and a vector of 10
  floats with \<^verbatim>\<open>size - i - 1\<close> (both vectors start zeroed), moves them into a new
  \<^verbatim>\<open>SharedArrays\<close>, creates the capsule \<^verbatim>\<open>deleter\<close> whose callback is \<^verbatim>\<open>delete\<close> of that
  structure, and returns two one-dimensional arrays over the two vectors, each holding a
  reference to the capsule; the local handle \<^verbatim>\<open>deleter\<close> is given up at the return.
\<close>

definition return_multiple_arrays :: "heap \<Rightarrow> failure + (exported \<times> exported \<times> world)" where
  "return_multiple_arrays h =
     (case for_loop 0 5 (\<lambda>i. store (int i) (float_of_size i))
             \<lparr>cells = replicate 5 (Finite 0), accesses = 0\<rparr> of
        Inl e \<Rightarrow> Inl e
      | Inr increasing \<Rightarrow>
          (case for_loop 0 10 (\<lambda>i. store (int i) (float_of_size (size_sub (size_sub 10 i) 1)))
                  \<lparr>cells = replicate 10 (Finite 0), accesses = 0\<rparr> of
             Inl e \<Rightarrow> Inl e
           | Inr decreasing \<Rightarrow>
               let (p, h1) = allocate (SharedArrays (cells increasing) (cells decreasing)) h;
                   w = \<lparr>heap = h1, owner = make_owner p deallocate\<rparr>;
                   size_1 = length (cells increasing);
                   size_2 = length (cells decreasing)
               in case acquire_token w of
                    Inl e \<Rightarrow> Inl (Lifetime e)
                  | Inr w1 \<Rightarrow>
                      (case acquire_token w1 of
                         Inl e \<Rightarrow> Inl (Lifetime e)
                       | Inr w2 \<Rightarrow>
                           (case drop_token w2 of
                              Inl e \<Rightarrow> Inl (Lifetime e)
                            | Inr w3 \<Rightarrow>
                                Inr (\<lparr>desc = \<lparr>dtype = Float32, device = CPU, shape = [size_1],
                                               strides = row_major_strides [size_1]\<rparr>,
                                      data = Vec1Data p\<rparr>,
                                     \<lparr>desc = \<lparr>dtype = Float32, device = CPU, shape = [size_2],
                                               strides = row_major_strides [size_2]\<rparr>,
                                      data = Vec2Data p\<rparr>,
                                     w3)))))"

section \<open>The column-major adapter (eigen.cpp)\<close>



section \<open>Specification functions\<close>

text \<open>
  The cells of a buffer after the first \<open>n\<close> of them, read as rows of \<open>c\<close> cells, have
  been overwritten with \<open>f row column\<close>; the others keep their contents.
\<close>

definition fill_cells :: "(nat \<Rightarrow> nat \<Rightarrow> 'a) \<Rightarrow> nat \<Rightarrow> nat \<Rightarrow> 'a list \<Rightarrow> 'a list" where
  "fill_cells f c n xs = map (\<lambda>k. if k < n then f (k div c) (k mod c) else xs ! k) [0..<length xs]"

text \<open>
  The invariant of a token through its history: it keeps its pointer and its callback,
  and the callback has been invoked once if the token is invalid and never otherwise.
\<close>

definition token_ok :: "nat \<Rightarrow> (nat \<Rightarrow> heap \<Rightarrow> heap) \<Rightarrow> world \<Rightarrow> bool" where
  "token_ok p rel w =
     (context_ptr (owner w) = p \<and> release (owner w) = rel \<and>
      fired (owner w) = (if refcount (owner w) = 0 then 1 else 0))"

section \<open>Loops\<close>

lemma for_loop_done: "\<not> k < n \<Longrightarrow> for_loop k n body s = Inr s"
  by (simp add: for_loop.simps)

lemma for_loop_step:
  "k < n \<Longrightarrow> for_loop k n body s =
     (case body k s of Inl e \<Rightarrow> Inl e | Inr s' \<Rightarrow> for_loop (Suc k) n body s')"
  by (subst for_loop.simps) simp

lemma for_loop_invariant:
  assumes "P k s" and "k \<le> n"
    and "\<And>i t. k \<le> i \<Longrightarrow> i < n \<Longrightarrow> P i t \<Longrightarrow> \<exists>t'. body i t = Inr t' \<and> P (Suc i) t'"
  shows "\<exists>t. for_loop k n body s = Inr t \<and> P n t"
  using assms
proof (induction k n body s rule: for_loop.induct)
  case (1 k n body s)
  show ?case
  proof (cases "k < n")
    case True
    from "1.prems"(3)[of k s] True "1.prems"(1)
    obtain t' where t': "body k s = Inr t'" "P (Suc k) t'" by auto
    have "\<exists>t. for_loop (Suc k) n body t' = Inr t \<and> P n t"
    proof (rule "1.IH"[OF True t'(1) t'(2)])
      show "Suc k \<le> n" using True by simp
    next
      fix i t assume "Suc k \<le> i" "i < n" "P i t"
      then show "\<exists>t'. body i t = Inr t' \<and> P (Suc i) t'"
        using "1.prems"(3)[of i t] by simp
    qed
    then show ?thesis using True t' by (simp add: for_loop_step)
  next
    case False
    with "1.prems" have "k = n" by simp
    then show ?thesis using "1.prems"(1) by (simp add: for_loop_done)
  qed
qed

lemma length_fill_cells [simp]: "length (fill_cells f c n xs) = length xs"
  by (simp add: fill_cells_def)

lemma fill_cells_0 [simp]: "fill_cells f c 0 xs = xs"
  by (simp add: fill_cells_def map_nth)

lemma fill_cells_step:
  "n < length xs \<Longrightarrow> (fill_cells f c n xs)[n := f (n div c) (n mod c)] = fill_cells f c (Suc n) xs"
  by (rule nth_equalityI) (auto simp: fill_cells_def nth_list_update less_Suc_eq)

lemma cell_index_bound: "i < r \<Longrightarrow> j < c \<Longrightarrow> i * c + j < r * (c::nat)"
proof -
  assume "i < r" "j < c"
  then have "i * c + j < Suc i * c" by simp
  also have "\<dots> \<le> r * c" using \<open>i < r\<close> by (intro mult_le_mono1) simp
  finally show ?thesis .
qed

lemma store_int:
  "store (int n) v m =
     (if n < length (cells m)
      then Inr (m\<lparr>cells := (cells m)[n := v], accesses := Suc (accesses m)\<rparr>)
      else Inl OutOfBounds)"
  by (simp add: store_def)

lemma fill_row:
  assumes off: "\<And>j. j < c \<Longrightarrow> off j = int (i * c + j)"
    and i: "i < r" and len: "r * c \<le> length xs"
  shows "for_loop 0 c (\<lambda>j. store (off j) (f i j))
           \<lparr>cells = fill_cells f c (i * c) xs, accesses = a\<rparr> =
         Inr \<lparr>cells = fill_cells f c (Suc i * c) xs, accesses = a + c\<rparr>"
proof -
  let ?P = "\<lambda>j t. t = \<lparr>cells = fill_cells f c (i * c + j) xs, accesses = a + j\<rparr>"
  have "\<exists>t. for_loop 0 c (\<lambda>j. store (off j) (f i j))
           \<lparr>cells = fill_cells f c (i * c) xs, accesses = a\<rparr> = Inr t \<and> ?P c t"
  proof (rule for_loop_invariant[where P = ?P])
    show "?P 0 \<lparr>cells = fill_cells f c (i * c) xs, accesses = a\<rparr>" by simp
  next
    show "0 \<le> c" by simp
  next
    fix j t assume j: "j < c" and t: "?P j t"
    have lt: "i * c + j < length xs" using cell_index_bound[OF i j] len by simp
    have dm: "(i * c + j) div c = i" "(i * c + j) mod c = j" using j by simp_all
    have "store (off j) (f i j) t =
            Inr \<lparr>cells = (fill_cells f c (i * c + j) xs)[i * c + j := f i j], accesses = Suc (a + j)\<rparr>"
      unfolding off[OF j] store_int using lt t by simp
    also have "(fill_cells f c (i * c + j) xs)[i * c + j := f i j] = fill_cells f c (Suc (i * c + j)) xs"
      using fill_cells_step[OF lt, of f c] unfolding dm .
    finally show "\<exists>t'. store (off j) (f i j) t = Inr t' \<and> ?P (Suc j) t'" by simp
  qed
  then show ?thesis by (simp add: add.commute)
qed

lemma fill_nest:
  assumes off: "\<And>i j. i < r \<Longrightarrow> j < c \<Longrightarrow> off i j = int (i * c + j)"
    and len: "r * c \<le> length (cells m)"
  shows "for_loop 0 r (\<lambda>i. for_loop 0 c (\<lambda>j. store (off i j) (f i j))) m =
         Inr (m\<lparr>cells := fill_cells f c (r * c) (cells m), accesses := accesses m + r * c\<rparr>)"
proof -
  let ?P = "\<lambda>i t. t = \<lparr>cells = fill_cells f c (i * c) (cells m), accesses = accesses m + i * c\<rparr>"
  have "\<exists>t. for_loop 0 r (\<lambda>i. for_loop 0 c (\<lambda>j. store (off i j) (f i j))) m = Inr t \<and> ?P r t"
  proof (rule for_loop_invariant[where P = ?P])
    show "?P 0 m" by simp
  next
    show "0 \<le> r" by simp
  next
    fix i t assume i: "i < r" and t: "?P i t"
    have "for_loop 0 c (\<lambda>j. store (off i j) (f i j)) t =
          Inr \<lparr>cells = fill_cells f c (Suc i * c) (cells m), accesses = accesses m + i * c + c\<rparr>"
      unfolding t by (rule fill_row[OF off[OF i] i len])
    then show "\<exists>t'. for_loop 0 c (\<lambda>j. store (off i j) (f i j)) t = Inr t' \<and> ?P (Suc i) t'"
      by (simp add: add.assoc)
  qed
  then show ?thesis by simp
qed

section \<open>Row-major arrays and views\<close>

lemma list2: "length xs = 2 \<Longrightarrow> xs = [xs ! 0, xs ! 1]"
  by (cases xs; cases "tl xs") auto

lemma validate_any_c_contig_cpu:
  "validate d any_c_contig_cpu =
     (if device d \<noteq> CPU then Inl DeviceMismatch
      else if is_contiguous d RowMajor then Inr d else Inl LayoutMismatch)"
  by (simp add: validate_def any_c_contig_cpu_def)

lemma validate_float_2d_c_contig_cpu:
  "validate d float_2d_c_contig_cpu =
     (if dtype d \<noteq> Float32 then Inl DtypeMismatch
      else if device d \<noteq> CPU then Inl DeviceMismatch
      else if ndim d \<noteq> 2 then Inl RankMismatch
      else if is_contiguous d RowMajor then Inr d else Inl LayoutMismatch)"
  by (simp add: validate_def float_2d_c_contig_cpu_def)

lemma row_major_offset:
  assumes "is_contiguous d RowMajor" and "shape d = [r, c]" and "i < r" and "j < c"
  shows "int i * (strides d ! 0) + int j * (strides d ! 1) = int (i * c + j)"
proof -
  from assms(1,2) have "length (strides d) = 2" by (simp add: is_contiguous_def)
  then obtain s0 s1 where s: "strides d = [s0, s1]" using list2 by blast
  from assms have "(r = 1 \<or> s0 = int c) \<and> (c = 1 \<or> s1 = 1)"
    by (auto simp: is_contiguous_def s packed_strides_def)
  with assms(3,4) show ?thesis by (auto simp: s)
qed

lemma view_2d_row_major:
  assumes "is_contiguous d RowMajor" and "shape d = [r, c]"
  shows "view_2d d = Some \<lparr>shape0 = r, shape1 = c, stride0 = strides d ! 0, stride1 = strides d ! 1\<rparr>"
  using assms by (simp add: view_2d_def is_contiguous_def)

lemma element_offset_row_major:
  assumes "is_contiguous d RowMajor" and "shape d = [r, c]" and "i < r" and "j < c"
  shows "element_offset d [i, j] = int (i * c + j)"
proof -
  from assms(1,2) have "length (strides d) = 2" by (simp add: is_contiguous_def)
  then obtain s0 s1 where s: "strides d = [s0, s1]" using list2 by blast
  show ?thesis using row_major_offset[OF assms] by (simp add: element_offset_def s)
qed

lemma view_fill:
  assumes "is_contiguous d RowMajor" and "shape d = [r, c]" and "r * c \<le> length (cells m)"
    and v: "view_2d d = Some v"
  shows "for_loop 0 (shape0 v) (\<lambda>i. for_loop 0 (shape1 v) (\<lambda>j. store (view_offset v i j) (f i j))) m =
           Inr (m\<lparr>cells := fill_cells f c (r * c) (cells m), accesses := accesses m + r * c\<rparr>)"
proof -
  from v view_2d_row_major[OF assms(1,2)]
  have veq: "v = \<lparr>shape0 = r, shape1 = c, stride0 = strides d ! 0, stride1 = strides d ! 1\<rparr>" by simp
  have off: "\<And>i j. i < r \<Longrightarrow> j < c \<Longrightarrow> view_offset v i j = int (i * c + j)"
    using row_major_offset[OF assms(1,2)] by (simp add: veq view_offset_def)
  have "for_loop 0 r (\<lambda>i. for_loop 0 c (\<lambda>j. store (view_offset v i j) (f i j))) m =
           Inr (m\<lparr>cells := fill_cells f c (r * c) (cells m), accesses := accesses m + r * c\<rparr>)"
    by (rule fill_nest[OF off assms(3)])
  then show ?thesis by (simp add: veq)
qed

lemma specialized_float:
  assumes "validate arr any_c_contig_cpu = Inr arr" and "dtype arr = Float32"
    and "shape arr = [r, c]" and "r * c \<le> length (cells m)"
  shows "fill_array_specialized arr m =
         Inr (''Used specialized 2D float view'',
              m\<lparr>cells := fill_cells (\<lambda>i j. F32 (float_of_size_plus_half (size_mul i j))) c (r * c) (cells m),
                accesses := accesses m + r * c\<rparr>)"
proof -
  from assms(1) have cc: "is_contiguous arr RowMajor"
    by (simp add: validate_any_c_contig_cpu split: if_splits)
  have nd: "ndim arr = 2" using assms(3) by (simp add: ndim_def)
  note v = view_2d_row_major[OF cc assms(3)]
  note loop = view_fill[OF cc assms(3,4) v, of "\<lambda>i j. F32 (float_of_size_plus_half (size_mul i j))"]
  show ?thesis unfolding fill_array_specialized_def
    by (simp only: assms(1) assms(2) nd v loop sum.case option.case if_True if_False simp_thms)
qed

lemma specialized_int32:
  assumes "validate arr any_c_contig_cpu = Inr arr" and "dtype arr = Int32"
    and "shape arr = [r, c]" and "r * c \<le> length (cells m)"
  shows "fill_array_specialized arr m =
         Inr (''Used specialized 2D int32 view'',
              m\<lparr>cells := fill_cells (\<lambda>i j. I32 (word_of_nat (size_add i j))) c (r * c) (cells m),
                accesses := accesses m + r * c\<rparr>)"
proof -
  from assms(1) have cc: "is_contiguous arr RowMajor"
    by (simp add: validate_any_c_contig_cpu split: if_splits)
  have nd: "ndim arr = 2" using assms(3) by (simp add: ndim_def)
  note v = view_2d_row_major[OF cc assms(3)]
  note loop = view_fill[OF cc assms(3,4) v, of "\<lambda>i j. I32 (word_of_nat (size_add i j))"]
  show ?thesis unfolding fill_array_specialized_def
    by (simp only: assms(1) assms(2) nd v loop sum.case option.case if_True if_False simp_thms dtype.distinct)
qed

lemma specialized_unsupported:
  assumes "validate arr any_c_contig_cpu = Inr arr"
    and "\<not> (dtype arr = Float32 \<and> ndim arr = 2)" and "\<not> (dtype arr = Int32 \<and> ndim arr = 2)"
  shows "fill_array_specialized arr m = Inr (''Unsupported array type or dimension'', m)"
  using assms by (auto simp: fill_array_specialized_def)


lemma specialized_dispatch:
  assumes "validate arr any_c_contig_cpu = Inr arr" and "prod_list (shape arr) \<le> length (cells m)"
  shows "\<exists>m'. fill_array_specialized arr m =
               Inr (if dtype arr = Float32 \<and> ndim arr = 2 then ''Used specialized 2D float view''
                    else if dtype arr = Int32 \<and> ndim arr = 2 then ''Used specialized 2D int32 view''
                    else ''Unsupported array type or dimension'', m') \<and>
              length (cells m') = length (cells m)"
proof (cases "ndim arr = 2 \<and> (dtype arr = Float32 \<or> dtype arr = Int32)")
  case True
  then have "shape arr = [shape arr ! 0, shape arr ! 1]"
    using list2[of "shape arr"] by (simp add: ndim_def)
  then obtain r c where rc: "shape arr = [r, c]" by blast
  with assms(2) have len: "r * c \<le> length (cells m)" by simp
  from True consider "dtype arr = Float32" | "dtype arr = Int32" by blast
  then show ?thesis
  proof cases
    case 1
    show ?thesis using True 1 by (simp add: specialized_float[OF assms(1) 1 rc len])
  next
    case 2
    show ?thesis using True 2 by (simp add: specialized_int32[OF assms(1) 2 rc len])
  qed
next
  case False
  then have "fill_array_specialized arr m = Inr (''Unsupported array type or dimension'', m)"
    by (intro specialized_unsupported[OF assms(1)]) auto
  moreover from False have
    "(if dtype arr = Float32 \<and> ndim arr = 2 then ''Used specialized 2D float view''
      else if dtype arr = Int32 \<and> ndim arr = 2 then ''Used specialized 2D int32 view''
      else ''Unsupported array type or dimension'') = ''Unsupported array type or dimension''"
    by auto
  ultimately show ?thesis by simp
qed

section \<open>The runtime specializer\<close>

text \<open>
  Claim C1. For every c-contiguous cpu array descriptor (one that the parameter type of
  \<^verbatim>\<open>fill_array_specialized\<close> accepts, over memory that holds its elements), the
  specializer returns the result of the first matching test in the order float32 and
  rank 2, int32 and rank 2, anything else: the string of the float view, the string of the
  int32 view, or the string for an unsupported array, and never fails or returns
  anything else.
\<close>

theorem specializer_first_match:
  assumes "validate arr any_c_contig_cpu = Inr arr"
    and "prod_list (shape arr) \<le> length (cells m)"
  shows "\<exists>m'. fill_array_specialized arr m =
               Inr (if dtype arr = Float32 \<and> ndim arr = 2 then ''Used specialized 2D float view''
                    else if dtype arr = Int32 \<and> ndim arr = 2 then ''Used specialized 2D int32 view''
                    else ''Unsupported array type or dimension'', m')"
  using specialized_dispatch[OF assms] by blast

theorem specializer_first_match_witness:
  "validate \<lparr>dtype = Float64, device = CPU, shape = [2, 1, 2], strides = [2, 2, 1]\<rparr>
     any_c_contig_cpu =
     Inr \<lparr>dtype = Float64, device = CPU, shape = [2, 1, 2], strides = [2, 2, 1]\<rparr> \<and>
   prod_list [2, 1, 2] \<le> length [Raw 7, Raw 7, Raw 7, Raw (7::nat)] \<and>
   (\<exists>m'. fill_array_specialized
            \<lparr>dtype = Float64, device = CPU, shape = [2, 1, 2], strides = [2, 2, 1]\<rparr>
            \<lparr>cells = [Raw 7, Raw 7, Raw 7, Raw 7], accesses = 0\<rparr> =
          Inr (''Unsupported array type or dimension'', m'))"
proof -
  let ?d = "\<lparr>dtype = Float64, device = CPU, shape = [2, 1, 2], strides = [2, 2, 1]\<rparr>"
  let ?m = "\<lparr>cells = [Raw 7, Raw 7, Raw 7, Raw 7], accesses = 0\<rparr>"
  have v: "validate ?d any_c_contig_cpu = Inr ?d"
    by (simp add: validate_any_c_contig_cpu is_contiguous_def packed_strides_def)
  have l: "prod_list (shape ?d) \<le> length (cells ?m)" by simp
  show ?thesis using specializer_first_match[OF v l] v by (simp add: ndim_def)
qed

text \<open>
  Claim C8. The dispatch of the specializer reads only the element type and the rank of
  the descriptor. Two accepted descriptors that agree on both get the same variant,
  whatever their extents and the contents of their memory; and running the specializer
  again on the same descriptor, over the memory the first run left, gives the same
  variant again.
\<close>

theorem specializer_depends_on_dtype_and_rank:
  assumes "validate a any_c_contig_cpu = Inr a" and "prod_list (shape a) \<le> length (cells ma)"
    and "validate b any_c_contig_cpu = Inr b" and "prod_list (shape b) \<le> length (cells mb)"
    and "dtype a = dtype b" and "ndim a = ndim b"
  shows "\<exists>s ma' mb' ma''.
           fill_array_specialized a ma = Inr (s, ma') \<and>
           fill_array_specialized b mb = Inr (s, mb') \<and>
           fill_array_specialized a ma' = Inr (s, ma'')"
proof -
  let ?s = "\<lambda>d. if dtype d = Float32 \<and> ndim d = 2 then ''Used specialized 2D float view''
                else if dtype d = Int32 \<and> ndim d = 2 then ''Used specialized 2D int32 view''
                else ''Unsupported array type or dimension''"
  from specialized_dispatch[OF assms(1,2)] obtain ma' where
    a1: "fill_array_specialized a ma = Inr (?s a, ma')" and la: "length (cells ma') = length (cells ma)"
    by blast
  from specialized_dispatch[OF assms(3,4)] obtain mb' where
    b1: "fill_array_specialized b mb = Inr (?s b, mb')" by blast
  from assms(2) la have "prod_list (shape a) \<le> length (cells ma')" by simp
  from specialized_dispatch[OF assms(1) this] obtain ma'' where
    a2: "fill_array_specialized a ma' = Inr (?s a, ma'')" by blast
  have "?s a = ?s b" using assms(5,6) by simp
  with b1 have b1': "fill_array_specialized b mb = Inr (?s a, mb')" by simp
  show ?thesis
    by (rule exI[of _ "?s a"], rule exI[of _ ma'], rule exI[of _ mb'], rule exI[of _ ma''])
       (simp only: a1 b1' a2 simp_thms)
qed

theorem specializer_depends_on_dtype_and_rank_witness:
  "\<exists>s ma' mb' ma''.
     fill_array_specialized \<lparr>dtype = Int32, device = CPU, shape = [2, 2], strides = [2, 1]\<rparr>
       \<lparr>cells = [I32 5, I32 6, I32 7, I32 8], accesses = 0\<rparr> = Inr (s, ma') \<and>
     fill_array_specialized \<lparr>dtype = Int32, device = CPU, shape = [3, 1], strides = [1, 1]\<rparr>
       \<lparr>cells = [I32 0, I32 0, I32 0], accesses = 0\<rparr> = Inr (s, mb') \<and>
     fill_array_specialized \<lparr>dtype = Int32, device = CPU, shape = [2, 2], strides = [2, 1]\<rparr>
       ma' = Inr (s, ma'')"
proof -
  let ?a = "\<lparr>dtype = Int32, device = CPU, shape = [2, 2], strides = [2, 1]\<rparr>"
  let ?b = "\<lparr>dtype = Int32, device = CPU, shape = [3, 1], strides = [1, 1]\<rparr>"
  let ?ma = "\<lparr>cells = [I32 5, I32 6, I32 7, I32 8], accesses = 0\<rparr>"
  let ?mb = "\<lparr>cells = [I32 0, I32 0, I32 0], accesses = 0\<rparr>"
  have va: "validate ?a any_c_contig_cpu = Inr ?a"
    by (simp add: validate_any_c_contig_cpu is_contiguous_def packed_strides_def)
  have vb: "validate ?b any_c_contig_cpu = Inr ?b"
    by (simp add: validate_any_c_contig_cpu is_contiguous_def packed_strides_def)
  have la: "prod_list (shape ?a) \<le> length (cells ?ma)" by simp
  have lb: "prod_list (shape ?b) \<le> length (cells ?mb)" by simp
  have dt: "dtype ?a = dtype ?b" by simp
  have nd: "ndim ?a = ndim ?b" by (simp add: ndim_def)
  show ?thesis by (rule specializer_depends_on_dtype_and_rank[OF va la vb lb dt nd])
qed

section \<open>Exact results of the fill loops\<close>

lemma nth_fill_cells:
  "k < length xs \<Longrightarrow>
   fill_cells f c n xs ! k = (if k < n then f (k div c) (k mod c) else xs ! k)"
  by (simp add: fill_cells_def)

lemma take_fill_cells:
  "n \<le> length xs \<Longrightarrow> take n (fill_cells f c n xs) = map (\<lambda>k. f (k div c) (k mod c)) [0..<n]"
  by (rule nth_equalityI) (simp_all add: nth_fill_cells)

lemma for_loop_skip:
  "(\<And>i t. body i t = Inr t) \<Longrightarrow> for_loop k n body s = Inr s"
proof (induction k n body s rule: for_loop.induct)
  case (1 k n body s)
  show ?case
  proof (cases "k < n")
    case True
    have "body k s = Inr s" by (rule "1.prems")
    with "1.IH"[OF True this "1.prems"] True show ?thesis by (simp add: for_loop_step)
  next
    case False
    then show ?thesis by (simp add: for_loop_done)
  qed
qed

lemma nest_zero:
  "r = 0 \<or> c = 0 \<Longrightarrow> for_loop 0 r (\<lambda>i. for_loop 0 c (body i)) m = Inr m"
proof (cases "r = 0")
  case True
  then show ?thesis by (simp add: for_loop_done)
next
  case False
  assume "r = 0 \<or> c = 0"
  with False have c: "c = 0" by simp
  show ?thesis by (rule for_loop_skip) (simp add: c for_loop_done)
qed

lemma list1: "length xs = 1 \<Longrightarrow> xs = [xs ! 0]"
  by (cases xs) auto

lemma list3: "length xs = 3 \<Longrightarrow> xs = [xs ! 0, xs ! 1, xs ! 2]"
  by (cases xs; cases "tl xs"; cases "tl (tl xs)") auto

lemma validate_rgb_image:
  "validate d rgb_image = Inr d' \<Longrightarrow> \<exists>h w. shape d = [h, w, 3]"
proof -
  assume a: "validate d rgb_image = Inr d'"
  then have "ndim d = 3" by (simp add: validate_def rgb_image_def split: if_splits)
  then obtain h w k where s: "shape d = [h, w, k]" using list3[of "shape d"] by (auto simp: ndim_def)
  with a have "k = 3"
    by (simp add: validate_def rgb_image_def ndim_def split: if_splits option.splits)
  with s show ?thesis by simp
qed

lemma optimized_result:
  assumes "validate arr float_2d_c_contig_cpu = Inr arr" and "shape arr = [r, c]"
    and "r * c \<le> length (cells m)"
  shows "fill_array_optimized arr m =
         Inr (m\<lparr>cells := fill_cells (\<lambda>i j. float_of_size (size_mul i j)) c (r * c) (cells m),
                accesses := accesses m + r * c\<rparr>)"
proof -
  from assms(1) have cc: "is_contiguous arr RowMajor"
    by (simp add: validate_float_2d_c_contig_cpu split: if_splits)
  note v = view_2d_row_major[OF cc assms(2)]
  note loop = view_fill[OF cc assms(2,3) v, of "\<lambda>i j. float_of_size (size_mul i j)"]
  show ?thesis unfolding fill_array_optimized_def
    by (simp only: assms(1) v loop sum.case option.case)
qed

lemma regular_result:
  assumes "validate arr float_2d_c_contig_cpu = Inr arr" and "shape arr = [r, c]"
    and "r * c \<le> length (cells m)"
  shows "fill_array_regular arr m =
         Inr (m\<lparr>cells := fill_cells (\<lambda>i j. float_of_size (size_mul i j)) c (r * c) (cells m),
                accesses := accesses m + r * c\<rparr>)"
proof -
  from assms(1) have cc: "is_contiguous arr RowMajor"
    by (simp add: validate_float_2d_c_contig_cpu split: if_splits)
  have s: "shape arr ! 0 = r" "shape arr ! 1 = c" using assms(2) by simp_all
  have loop: "for_loop 0 r (\<lambda>i. for_loop 0 c (\<lambda>j.
                 store (element_offset arr [i, j]) (float_of_size (size_mul i j)))) m =
         Inr (m\<lparr>cells := fill_cells (\<lambda>i j. float_of_size (size_mul i j)) c (r * c) (cells m),
                accesses := accesses m + r * c\<rparr>)"
    by (rule fill_nest[OF element_offset_row_major[OF cc assms(2)] assms(3)])
  show ?thesis unfolding fill_array_regular_def
    by (simp only: assms(1) s loop sum.case)
qed

lemma float_2d_shape:
  assumes "validate arr float_2d_c_contig_cpu = Inr arr"
  shows "is_contiguous arr RowMajor" and "shape arr = [shape arr ! 0, shape arr ! 1]"
proof -
  show "is_contiguous arr RowMajor"
    using assms by (simp add: validate_float_2d_c_contig_cpu split: if_splits)
  have "ndim arr = 2" using assms by (simp add: validate_float_2d_c_contig_cpu split: if_splits)
  then show "shape arr = [shape arr ! 0, shape arr ! 1]"
    using list2[of "shape arr"] by (simp add: ndim_def)
qed


lemma upt4: "[0..<4] = [0, 1, 2, 3]"
  by (simp add: upt_rec)


text \<open>
  \<^verbatim>\<open>map_vector\<close> on a float array: the runtime error is raised exactly when the rank is
  not 1, and on an array of rank 1 the first \<open>n\<close> consecutive cells behind the data
  pointer are doubled, which are the elements of the array when its stride is 1.
\<close>

lemma for_loop_failure:
  "for_loop k n body s = Inl e \<Longrightarrow> \<exists>i t. k \<le> i \<and> i < n \<and> body i t = Inl e"
proof (induction k n body s rule: for_loop.induct)
  case (1 k n body s)
  show ?case
  proof (cases "k < n")
    case True
    show ?thesis
    proof (cases "body k s")
      case (Inl e')
      with True "1.prems" have "e' = e" by (simp add: for_loop_step)
      with Inl True show ?thesis by auto
    next
      case (Inr s')
      with True "1.prems" have "for_loop (Suc k) n body s' = Inl e" by (simp add: for_loop_step)
      from "1.IH"[OF True Inr this] obtain i t where "Suc k \<le> i" "i < n" "body i t = Inl e"
        by blast
      then show ?thesis by (intro exI[of _ i] exI[of _ t]) simp
    qed
  next
    case False
    with "1.prems" show ?thesis by (simp add: for_loop_done)
  qed
qed

lemma validate_float_array:
  "validate d float_array = (if dtype d = Float32 then Inr d else Inl DtypeMismatch)"
  by (simp add: validate_def float_array_def)

lemma map_vector_rank_check:
  assumes "dtype array = Float32"
  shows "(map_vector array m = Inl (RuntimeError ''Expected a 1D array'')) = (ndim array \<noteq> 1)"
proof (cases "ndim array = 1")
  case False
  then show ?thesis using assms by (simp add: map_vector_def validate_float_array)
next
  case True
  have "map_vector array m \<noteq> Inl (RuntimeError ''Expected a 1D array'')"
  proof
    assume "map_vector array m = Inl (RuntimeError ''Expected a 1D array'')"
    then have "for_loop 0 (shape array ! 0) (\<lambda>k m1.
                 (case load (int k) m1 of Inl e \<Rightarrow> Inl e
                  | Inr (v, m2) \<Rightarrow> store (int k) (float_times_two v) m2)) m =
               Inl (RuntimeError ''Expected a 1D array'')"
      using assms True by (simp add: map_vector_def validate_float_array)
    from for_loop_failure[OF this] show False
      by (auto simp: load_def store_def split: if_splits)
  qed
  with True show ?thesis by simp
qed

lemma map_vector_consecutive:
  assumes "dtype array = Float32" and "shape array = [n]" and "n \<le> length (cells m)"
  shows "map_vector array m =
         Inr (m\<lparr>cells := map float_times_two (take n (cells m)) @ drop n (cells m),
                accesses := accesses m + 2 * n\<rparr>)"
proof -
  let ?xs = "cells m"
  let ?body = "\<lambda>k m1. (case load (int k) m1 of Inl e \<Rightarrow> Inl e
                  | Inr (v, m2) \<Rightarrow> store (int k) (float_times_two v) m2)"
  let ?P = "\<lambda>k t. t = \<lparr>cells = map float_times_two (take k ?xs) @ drop k ?xs,
                        accesses = accesses m + 2 * k\<rparr>"
  have "\<exists>t. for_loop 0 n ?body m = Inr t \<and> ?P n t"
  proof (rule for_loop_invariant[where P = ?P])
    show "?P 0 m" by simp
  next
    show "0 \<le> n" by simp
  next
    fix k t assume k: "k < n" and t: "?P k t"
    have kl: "k < length ?xs" using k assms(3) by simp
    have upd: "(map float_times_two (take k ?xs) @ drop k ?xs)[k := float_times_two (?xs ! k)] =
               map float_times_two (take (Suc k) ?xs) @ drop (Suc k) ?xs"
      using kl by (intro nth_equalityI) (auto simp: nth_append nth_list_update less_Suc_eq min_def)
    have cur: "(map float_times_two (take k ?xs) @ drop k ?xs) ! k = ?xs ! k"
      using kl by (simp add: nth_append min_def)
    show "\<exists>t'. ?body k t = Inr t' \<and> ?P (Suc k) t'"
      using kl upd cur by (simp add: t load_def store_def)
  qed
  then have "for_loop 0 n ?body m =
             Inr \<lparr>cells = map float_times_two (take n ?xs) @ drop n ?xs,
                  accesses = accesses m + 2 * n\<rparr>" by simp
  then show ?thesis
    using assms(1,2) by (cases m) (simp add: map_vector_def validate_float_array ndim_def)
qed

text \<open>
  Claim C2, as amended. On a 2 by 2 descriptor that the specializer accepts, the float
  branch stores \<open>i * j + 0.5\<close> and leaves the values 0.5, 0.5, 0.5, 1.5 in row-major
  order; the int32 branch stores \<open>i + j\<close> and leaves 0, 1, 1, 2.
\<close>

theorem specialized_fill_2x2:
  assumes "validate arr any_c_contig_cpu = Inr arr" and "shape arr = [2, 2]"
    and "4 \<le> length (cells m)"
  shows "(dtype arr = Float32 \<longrightarrow>
            (\<exists>m'. fill_array_specialized arr m = Inr (''Used specialized 2D float view'', m') \<and>
                   take 4 (cells m') =
                     [F32 (Finite (1 / 2)), F32 (Finite (1 / 2)),
                      F32 (Finite (1 / 2)), F32 (Finite (3 / 2))])) \<and>
         (dtype arr = Int32 \<longrightarrow>
            (\<exists>m'. fill_array_specialized arr m = Inr (''Used specialized 2D int32 view'', m') \<and>
                   take 4 (cells m') = [I32 0, I32 1, I32 1, I32 2]))"
proof (intro conjI impI)
  have len: "2 * 2 \<le> length (cells m)" using assms(3) by simp
  {
    assume dt: "dtype arr = Float32"
    have "take 4 (fill_cells (\<lambda>i j. F32 (float_of_size_plus_half (size_mul i j))) 2 4 (cells m)) =
          [F32 (Finite (1 / 2)), F32 (Finite (1 / 2)), F32 (Finite (1 / 2)), F32 (Finite (3 / 2))]"
      by (simp add: take_fill_cells[OF assms(3)] upt4 float_of_size_plus_half_def size_mul_def
          round_sig24_def)
    then show "\<exists>m'. fill_array_specialized arr m = Inr (''Used specialized 2D float view'', m') \<and>
                   take 4 (cells m') =
                     [F32 (Finite (1 / 2)), F32 (Finite (1 / 2)),
                      F32 (Finite (1 / 2)), F32 (Finite (3 / 2))]"
      by (simp add: specialized_float[OF assms(1) dt assms(2) len])
  }
  {
    assume dt: "dtype arr = Int32"
    have "take 4 (fill_cells (\<lambda>i j. I32 (word_of_nat (size_add i j))) 2 4 (cells m)) =
          [I32 0, I32 1, I32 1, I32 2]"
      by (simp add: take_fill_cells[OF assms(3)] upt4 size_add_def)
    then show "\<exists>m'. fill_array_specialized arr m = Inr (''Used specialized 2D int32 view'', m') \<and>
                   take 4 (cells m') = [I32 0, I32 1, I32 1, I32 2]"
      by (simp add: specialized_int32[OF assms(1) dt assms(2) len])
  }
qed


theorem specialized_fill_2x2_witness:
  "\<exists>m'. fill_array_specialized \<lparr>dtype = Int32, device = CPU, shape = [2, 2], strides = [2, 1]\<rparr>
          \<lparr>cells = [I32 9, I32 9, I32 9, I32 9], accesses = 0\<rparr> =
          Inr (''Used specialized 2D int32 view'', m') \<and>
        take 4 (cells m') = [I32 0, I32 1, I32 1, I32 2]"
proof -
  let ?d = "\<lparr>dtype = Int32, device = CPU, shape = [2, 2], strides = [2, 1]\<rparr>"
  let ?m = "\<lparr>cells = [I32 9, I32 9, I32 9, I32 9], accesses = 0\<rparr>"
  have v: "validate ?d any_c_contig_cpu = Inr ?d"
    by (simp add: validate_any_c_contig_cpu is_contiguous_def packed_strides_def)
  have s: "shape ?d = [2, 2]" by simp
  have l: "4 \<le> length (cells ?m)" by simp
  show ?thesis using specialized_fill_2x2[OF v s l] by simp
qed


text \<open>
  Claim C2 as stated fails: after the float branch the four cells are neither
  0, 0, 0, 2 (the values the claim lists) nor 0, 0, 0, 1 (the products \<open>i * j\<close>).
\<close>

theorem specialized_float_2x2_counterexample:
  "\<not> (\<exists>m'. fill_array_specialized
              \<lparr>dtype = Float32, device = CPU, shape = [2, 2], strides = [2, 1]\<rparr>
              \<lparr>cells = [F32 (Finite 7), F32 (Finite 7), F32 (Finite 7), F32 (Finite 7)],
               accesses = 0\<rparr> = Inr (''Used specialized 2D float view'', m') \<and>
            (cells m' = [F32 (Finite 0), F32 (Finite 0), F32 (Finite 0), F32 (Finite 2)] \<or>
             cells m' = [F32 (Finite 0), F32 (Finite 0), F32 (Finite 0), F32 (Finite 1)]))"
proof -
  let ?d = "\<lparr>dtype = Float32, device = CPU, shape = [2, 2], strides = [2, 1]\<rparr>"
  let ?m = "\<lparr>cells = [F32 (Finite 7), F32 (Finite 7), F32 (Finite 7), F32 (Finite 7)],
             accesses = 0\<rparr>"
  have v: "validate ?d any_c_contig_cpu = Inr ?d"
    by (simp add: validate_any_c_contig_cpu is_contiguous_def packed_strides_def)
  have l: "2 * 2 \<le> length (cells ?m)" by simp
  have "fill_array_specialized ?d ?m =
        Inr (''Used specialized 2D float view'',
             \<lparr>cells = [F32 (Finite (1 / 2)), F32 (Finite (1 / 2)),
                       F32 (Finite (1 / 2)), F32 (Finite (3 / 2))], accesses = 4\<rparr>)"
    using specialized_float[OF v _ _ l]
    by (simp add: fill_cells_def upt4 float_of_size_plus_half_def size_mul_def round_sig24_def)
  then show ?thesis by simp
qed


section \<open>The two fill functions\<close>

text \<open>
  Claim C9. On every two-dimensional c-contiguous cpu float32 array over memory that
  holds its elements, \<^verbatim>\<open>fill_array_optimized\<close> and \<^verbatim>\<open>fill_array_regular\<close> both
  succeed and leave the same memory, in which element \<open>(i, j)\<close> of the array is the
  float conversion of \<open>i * j\<close>.
\<close>

theorem fill_optimized_equals_regular:
  assumes "validate arr float_2d_c_contig_cpu = Inr arr"
    and "prod_list (shape arr) \<le> length (cells m)"
    and "length (cells m) < 2 ^ 64"
  shows "\<exists>m'. fill_array_optimized arr m = Inr m' \<and> fill_array_regular arr m = Inr m' \<and>
           length (cells m') = length (cells m) \<and>
           (\<forall>i < shape arr ! 0. \<forall>j < shape arr ! 1.
              cells m' ! nat (element_offset arr [i, j]) = float_of_size (i * j))"
proof -
  define r c where "r = shape arr ! 0" and "c = shape arr ! 1"
  note cc = float_2d_shape(1)[OF assms(1)]
  have rc: "shape arr = [r, c]" using float_2d_shape(2)[OF assms(1)] by (simp add: r_def c_def)
  have len: "r * c \<le> length (cells m)" using assms(2) rc by simp
  let ?f = "\<lambda>i j. float_of_size (size_mul i j)"
  let ?m' = "m\<lparr>cells := fill_cells ?f c (r * c) (cells m), accesses := accesses m + r * c\<rparr>"
  have elt: "cells ?m' ! nat (element_offset arr [i, j]) = float_of_size (i * j)"
    if i: "i < r" and j: "j < c" for i j
  proof -
    have k: "i * c + j < r * c" by (rule cell_index_bound[OF i j])
    have "i * j \<le> i * c" using j by (intro mult_le_mono2) simp
    with k len assms(3) have "i * j < 2 ^ 64" by linarith
    then have sm: "size_mul i j = i * j" by (simp add: size_mul_def)
    have dm: "(i * c + j) div c = i" "(i * c + j) mod c = j" using j by simp_all
    have "nat (element_offset arr [i, j]) = i * c + j"
      by (simp only: element_offset_row_major[OF cc rc i j] nat_int)
    moreover have "fill_cells ?f c (r * c) (cells m) ! (i * c + j) = float_of_size (i * j)"
      using k len by (simp only: nth_fill_cells[of "i * c + j" "cells m" ?f c "r * c"] dm sm) simp
    ultimately show ?thesis by simp
  qed
  have "fill_array_optimized arr m = Inr ?m'" by (rule optimized_result[OF assms(1) rc len])
  moreover have "fill_array_regular arr m = Inr ?m'" by (rule regular_result[OF assms(1) rc len])
  moreover have "length (cells ?m') = length (cells m)" by simp
  moreover have "\<forall>i < shape arr ! 0. \<forall>j < shape arr ! 1.
              cells ?m' ! nat (element_offset arr [i, j]) = float_of_size (i * j)"
    using elt unfolding r_def c_def by blast
  ultimately show ?thesis by blast
qed

theorem fill_optimized_equals_regular_witness:
  "validate \<lparr>dtype = Float32, device = CPU, shape = [2, 3], strides = [3, 1]\<rparr> float_2d_c_contig_cpu =
     Inr \<lparr>dtype = Float32, device = CPU, shape = [2, 3], strides = [3, 1]\<rparr> \<and>
   (\<exists>m'. fill_array_optimized \<lparr>dtype = Float32, device = CPU, shape = [2, 3], strides = [3, 1]\<rparr>
            \<lparr>cells = replicate 6 NaN, accesses = 0\<rparr> = Inr m' \<and>
          fill_array_regular \<lparr>dtype = Float32, device = CPU, shape = [2, 3], strides = [3, 1]\<rparr>
            \<lparr>cells = replicate 6 NaN, accesses = 0\<rparr> = Inr m' \<and>
          cells m' ! 5 = float_of_size 2)"
proof -
  let ?d = "\<lparr>dtype = Float32, device = CPU, shape = [2, 3], strides = [3, 1]\<rparr>"
  let ?m = "\<lparr>cells = replicate 6 NaN, accesses = 0\<rparr> :: float32 memory"
  have v: "validate ?d float_2d_c_contig_cpu = Inr ?d"
    by (simp add: validate_float_2d_c_contig_cpu is_contiguous_def packed_strides_def ndim_def)
  have l: "prod_list (shape ?d) \<le> length (cells ?m)" by simp
  have b: "length (cells ?m) < 2 ^ 64" by simp
  from fill_optimized_equals_regular[OF v l b] obtain m' where
    m': "fill_array_optimized ?d ?m = Inr m'" "fill_array_regular ?d ?m = Inr m'"
    "\<forall>i < shape ?d ! 0. \<forall>j < shape ?d ! 1.
        cells m' ! nat (element_offset ?d [i, j]) = float_of_size (i * j)" by blast
  from m'(3) have "cells m' ! nat (element_offset ?d [1, 2]) = float_of_size (1 * 2)"
    by simp
  then have "cells m' ! 5 = float_of_size 2" by (simp add: element_offset_def)
  with v m'(1,2) show ?thesis by blast
qed


section \<open>Arrays with a zero extent\<close>

text \<open>
  Claim C6. A descriptor with a zero extent on some axis has zero elements, and every
  function of the tutorial that iterates over the elements of an array it accepts (the
  three fill functions, \<^verbatim>\<open>process_rgb_image\<close> and \<^verbatim>\<open>map_vector\<close>) returns without a
  failure and leaves the memory as it was, the count of element accesses included: no
  cell is read or written.
\<close>

theorem zero_extent_no_access:
  assumes "0 \<in> set (shape arr)"
  shows "prod_list (shape arr) = 0 \<and>
    (validate arr float_2d_c_contig_cpu = Inr arr \<longrightarrow>
       fill_array_optimized arr mf = Inr mf \<and> fill_array_regular arr mf = Inr mf) \<and>
    (validate arr any_c_contig_cpu = Inr arr \<longrightarrow>
       (\<exists>s. fill_array_specialized arr me = Inr (s, me))) \<and>
    (validate arr rgb_image = Inr arr \<longrightarrow> process_rgb_image arr mb = Inr mb) \<and>
    (validate arr float_array = Inr arr \<and> ndim arr = 1 \<longrightarrow> map_vector arr mf = Inr mf)"
proof (intro conjI impI)
  show "prod_list (shape arr) = 0" using assms by (simp add: prod_list_zero_iff)
next
  assume v: "validate arr float_2d_c_contig_cpu = Inr arr"
  note cc = float_2d_shape(1)[OF v]
  obtain r c where rc: "shape arr = [r, c]" using float_2d_shape(2)[OF v] by blast
  with assms have z: "r = 0 \<or> c = 0" by auto
  note vw = view_2d_row_major[OF cc rc]
  show "fill_array_optimized arr mf = Inr mf"
    unfolding fill_array_optimized_def by (simp add: v vw nest_zero[OF z])
  show "fill_array_regular arr mf = Inr mf"
    unfolding fill_array_regular_def by (simp add: v rc nest_zero[OF z])
next
  assume v: "validate arr any_c_contig_cpu = Inr arr"
  then have cc: "is_contiguous arr RowMajor"
    by (simp add: validate_any_c_contig_cpu split: if_splits)
  show "\<exists>s. fill_array_specialized arr me = Inr (s, me)"
  proof (cases "ndim arr = 2")
    case True
    then obtain r c where rc: "shape arr = [r, c]" using list2[of "shape arr"] by (auto simp: ndim_def)
    with assms have z: "r = 0 \<or> c = 0" by auto
    note vw = view_2d_row_major[OF cc rc]
    show ?thesis unfolding fill_array_specialized_def by (simp add: v vw nest_zero[OF z])
  next
    case False
    then show ?thesis unfolding fill_array_specialized_def by (simp add: v)
  qed
next
  assume v: "validate arr rgb_image = Inr arr"
  from validate_rgb_image[OF v] obtain h w where s: "shape arr = [h, w, 3]" by blast
  with assms have z: "h = 0 \<or> w = 0" by auto
  show "process_rgb_image arr mb = Inr mb"
    unfolding process_rgb_image_def by (simp add: v s nest_zero[OF z])
next
  assume "validate arr float_array = Inr arr \<and> ndim arr = 1"
  then have v: "validate arr float_array = Inr arr" and n: "ndim arr = 1" by simp_all
  from n obtain k where s: "shape arr = [k]" using list1[of "shape arr"] by (auto simp: ndim_def)
  with assms have "k = 0" by simp
  then show "map_vector arr mf = Inr mf"
    unfolding map_vector_def by (simp add: v n s for_loop_done)
qed

theorem zero_extent_no_access_witness:
  "0 \<in> set [0, 5 :: nat] \<and> prod_list [0, 5 :: nat] = 0 \<and>
   fill_array_optimized \<lparr>dtype = Float32, device = CPU, shape = [0, 5], strides = [5, 1]\<rparr>
     \<lparr>cells = [], accesses = 0\<rparr> = Inr \<lparr>cells = [], accesses = 0\<rparr> \<and>
   fill_array_regular \<lparr>dtype = Float32, device = CPU, shape = [0, 5], strides = [5, 1]\<rparr>
     \<lparr>cells = [], accesses = 0\<rparr> = Inr \<lparr>cells = [], accesses = 0\<rparr>"
proof -
  let ?d = "\<lparr>dtype = Float32, device = CPU, shape = [0, 5], strides = [5, 1]\<rparr>"
  have z: "0 \<in> set (shape ?d)" by simp
  have v: "validate ?d float_2d_c_contig_cpu = Inr ?d"
    by (simp add: validate_float_2d_c_contig_cpu is_contiguous_def ndim_def)
  show ?thesis
    using zero_extent_no_access[OF z, of "\<lparr>cells = [], accesses = 0\<rparr>"] v by simp
qed


section \<open>Mapping a strided vector\<close>

text \<open>
  Claim C10 at a one-dimensional float array with stride 2 over the cells 1, 2, 3, 4,
  whose elements are the cells 0 and 2. The parameter type \<^verbatim>\<open>nb::ndarray<float>\<close> does
  not ask for contiguity, and \<^verbatim>\<open>map_vector\<close> doubles the cells 0 and 1: the second
  element of the array keeps the value 3, and cell 1, which is no element of the array,
  changes from 2 to 4. The claim holds for the arrays of stride 1.
\<close>

theorem map_vector_strided:
  "map_vector \<lparr>dtype = Float32, device = CPU, shape = [2], strides = [2]\<rparr>
     \<lparr>cells = [Finite 1, Finite 2, Finite 3, Finite 4], accesses = 0\<rparr> =
   Inr \<lparr>cells = [Finite 2, Finite 4, Finite 3, Finite 4], accesses = 4\<rparr>"
  by (simp add: map_vector_def validate_def float_array_def ndim_def for_loop_step for_loop_done
      load_def store_def)

section \<open>Linear fills, float conversion and the token invariant\<close>

lemma fill_linear:
  assumes "n \<le> length (cells m)"
  shows "for_loop 0 n (\<lambda>i. store (int i) (f i)) m =
         Inr (m\<lparr>cells := map f [0..<n] @ drop n (cells m), accesses := accesses m + n\<rparr>)"
proof -
  have len: "1 * n \<le> length (cells m)" using assms by simp
  have row: "for_loop 0 n (\<lambda>j. store (int j) (f j))
               \<lparr>cells = fill_cells (\<lambda>i. f) n (0 * n) (cells m), accesses = accesses m\<rparr> =
             Inr \<lparr>cells = fill_cells (\<lambda>i. f) n (Suc 0 * n) (cells m), accesses = accesses m + n\<rparr>"
    by (rule fill_row[where r = 1]) (simp_all add: assms)
  have "fill_cells (\<lambda>i. f) n n (cells m) = map f [0..<n] @ drop n (cells m)"
    using assms by (intro nth_equalityI) (auto simp: nth_fill_cells nth_append)
  with row show ?thesis by (cases m) simp
qed

lemma bit_length_0 [simp]: "bit_length 0 = 0"
  by (simp add: bit_length.simps)

lemma bit_length_1 [simp]: "bit_length (Suc 0) = 1"
  by (simp add: bit_length.simps[of "Suc 0"])

lemma bit_length_numeral [simp]:
  "bit_length (numeral k) = Suc (bit_length (numeral k div 2))"
  by (subst bit_length.simps) simp




lemma create_2d_array_bad_alloc:
  assumes "2 ^ 63 \<le> size_mul rows cols * 4 \<or> max_bytes < size_mul rows cols * 4"
  shows "create_2d_array max_bytes rows cols h = Inl BadAlloc"
  using assms by (auto simp: create_2d_array_def new_float_array_def Let_def)

lemma create_2d_array_too_large:
  "create_2d_array max_bytes 4611686018427387904 1 h = Inl BadAlloc"
  by (rule create_2d_array_bad_alloc) (simp add: size_mul_def)

lemma token_ok_apply_op:
  "token_ok p rel w \<Longrightarrow> apply_op x w = Inr w' \<Longrightarrow> token_ok p rel w'"
  by (cases x) (auto simp: token_ok_def apply_op_def acquire_token_def drop_token_def
      split: if_splits)

lemma token_ok_run_ops: "token_ok p rel w \<Longrightarrow> token_ok p rel (run_ops ops w)"
proof (induction ops arbitrary: w)
  case Nil
  then show ?case by simp
next
  case (Cons x xs)
  show ?case
  proof (cases "apply_op x w")
    case (Inl e)
    then show ?thesis using Cons by simp
  next
    case (Inr w')
    then show ?thesis using Cons token_ok_apply_op[OF Cons.prems Inr] by simp
  qed
qed

lemma upt5: "[0..<5] = [0, 1, 2, 3, 4]"
  by (simp add: upt_rec)

lemma upt10: "[0..<10] = [0, 1, 2, 3, 4, 5, 6, 7, 8, 9]"
  by (simp add: upt_rec)

lemma return_multiple_arrays_result:
  "return_multiple_arrays h =
     Inr (\<lparr>desc = \<lparr>dtype = Float32, device = CPU, shape = [5], strides = [1]\<rparr>,
           data = Vec1Data (length h)\<rparr>,
          \<lparr>desc = \<lparr>dtype = Float32, device = CPU, shape = [10], strides = [1]\<rparr>,
           data = Vec2Data (length h)\<rparr>,
          \<lparr>heap = h @ [Some (SharedArrays
                    [Finite 0, Finite 1, Finite 2, Finite 3, Finite 4]
                    [Finite 9, Finite 8, Finite 7, Finite 6, Finite 5,
                     Finite 4, Finite 3, Finite 2, Finite 1, Finite 0])],
           owner = \<lparr>context_ptr = length h, release = deallocate, refcount = 2, fired = 0\<rparr>\<rparr>)"
proof -
  have inc: "for_loop 0 5 (\<lambda>i. store (int i) (float_of_size i))
               \<lparr>cells = replicate 5 (Finite 0), accesses = 0\<rparr> =
             Inr \<lparr>cells = [Finite 0, Finite 1, Finite 2, Finite 3, Finite 4], accesses = 5\<rparr>"
    using fill_linear[of 5 "\<lparr>cells = replicate 5 (Finite 0), accesses = 0\<rparr>" float_of_size]
    by (simp add: upt5 float_of_size_def round_sig24_def)
  have dec: "for_loop 0 10 (\<lambda>i. store (int i) (float_of_size (size_sub (size_sub 10 i) 1)))
               \<lparr>cells = replicate 10 (Finite 0), accesses = 0\<rparr> =
             Inr \<lparr>cells = [Finite 9, Finite 8, Finite 7, Finite 6, Finite 5,
                          Finite 4, Finite 3, Finite 2, Finite 1, Finite 0], accesses = 10\<rparr>"
    using fill_linear[of 10 "\<lparr>cells = replicate 10 (Finite 0), accesses = 0\<rparr>"
        "\<lambda>i. float_of_size (size_sub (size_sub 10 i) 1)"]
    by (simp add: upt10 float_of_size_def round_sig24_def size_sub_def)
  show ?thesis
    unfolding return_multiple_arrays_def
    by (simp only: inc dec sum.case)
       (simp add: Let_def allocate_def make_owner_def acquire_token_def drop_token_def)
qed


section \<open>Buffer creation and hand-off\<close>




section \<open>Ownership tokens\<close>

text \<open>
  Claim C3. Take a fresh token and any history of acquires and drops on it. The release
  callback has been invoked exactly once if the token is invalid and not at all while it
  has a holder. If one holder is left, the drop invokes the callback on the token's
  pointer, once, and invalidates the token; a further drop is reported as
  \<open>DoubleRelease\<close> and a further acquire as \<open>UseAfterRelease\<close>, which change nothing and
  invoke nothing. If several holders are left, a drop only counts down.
\<close>

theorem release_exactly_once:
  assumes "w = run_ops ops \<lparr>heap = h, owner = make_owner p rel\<rparr>"
  shows "fired (owner w) = (if refcount (owner w) = 0 then 1 else 0) \<and>
         (refcount (owner w) = 1 \<longrightarrow>
            (\<exists>w'. drop_token w = Inr w' \<and> heap w' = rel p (heap w) \<and>
                   fired (owner w') = 1 \<and> refcount (owner w') = 0 \<and>
                   drop_token w' = Inl DoubleRelease \<and>
                   acquire_token w' = Inl UseAfterRelease)) \<and>
         (1 < refcount (owner w) \<longrightarrow>
            (\<exists>w'. drop_token w = Inr w' \<and> heap w' = heap w \<and> fired (owner w') = 0 \<and>
                   refcount (owner w') = refcount (owner w) - 1)) \<and>
         (refcount (owner w) = 0 \<longrightarrow>
            drop_token w = Inl DoubleRelease \<and> acquire_token w = Inl UseAfterRelease)"
proof -
  have "token_ok p rel \<lparr>heap = h, owner = make_owner p rel\<rparr>"
    by (simp add: token_ok_def make_owner_def)
  then have ok: "token_ok p rel w" unfolding assms by (rule token_ok_run_ops)
  then show ?thesis
    by (auto simp: token_ok_def drop_token_def acquire_token_def)
qed

theorem release_exactly_once_witness:
  "\<exists>w'. drop_token (run_ops [Acquire, Drop] \<lparr>heap = [Some (FloatArray [NaN])],
                                              owner = make_owner 0 deallocate\<rparr>) = Inr w' \<and>
         heap w' = [None] \<and> fired (owner w') = 1 \<and>
         drop_token w' = Inl DoubleRelease"
proof -
  let ?w = "run_ops [Acquire, Drop] \<lparr>heap = [Some (FloatArray [NaN])],
                                     owner = make_owner 0 deallocate\<rparr>"
  have r: "refcount (owner ?w) = 1" "heap ?w = [Some (FloatArray [NaN])]"
    by (simp_all add: apply_op_def acquire_token_def drop_token_def make_owner_def)
  from release_exactly_once[OF refl, of "[Acquire, Drop]" "[Some (FloatArray [NaN])]" 0 deallocate] r
  show ?thesis by (auto simp: deallocate_def)
qed

text \<open>
  Claim C4. \<^verbatim>\<open>return_multiple_arrays\<close> returns two descriptors over the two vectors of
  one \<^verbatim>\<open>SharedArrays\<close> allocation and a token with two holders. Dropping one
  descriptor invokes nothing and leaves the heap as it was, so the vector of the other
  descriptor still reads 9, 8, ..., 0; dropping the second invokes the callback, after
  which the allocation is freed and neither pointer can be read.
\<close>

theorem shared_token_keeps_buffer_alive:
  "\<exists>a1 a2 w w1 w2.
     return_multiple_arrays h = Inr (a1, a2, w) \<and>
     refcount (owner w) = 2 \<and>
     deref (heap w) (data a1) = Some [Finite 0, Finite 1, Finite 2, Finite 3, Finite 4] \<and>
     drop_token w = Inr w1 \<and>
     fired (owner w1) = 0 \<and> heap w1 = heap w \<and>
     deref (heap w1) (data a2) =
       Some [Finite 9, Finite 8, Finite 7, Finite 6, Finite 5,
             Finite 4, Finite 3, Finite 2, Finite 1, Finite 0] \<and>
     drop_token w1 = Inr w2 \<and>
     fired (owner w2) = 1 \<and> heap w2 = h @ [None] \<and>
     deref (heap w2) (data a1) = None \<and> deref (heap w2) (data a2) = None"
proof -
  let ?v1 = "[Finite 0, Finite 1, Finite 2, Finite 3, Finite 4]"
  let ?v2 = "[Finite 9, Finite 8, Finite 7, Finite 6, Finite 5,
              Finite 4, Finite 3, Finite 2, Finite 1, Finite 0]"
  let ?a1 = "\<lparr>desc = \<lparr>dtype = Float32, device = CPU, shape = [5], strides = [1]\<rparr>,
              data = Vec1Data (length h)\<rparr>"
  let ?a2 = "\<lparr>desc = \<lparr>dtype = Float32, device = CPU, shape = [10], strides = [1]\<rparr>,
              data = Vec2Data (length h)\<rparr>"
  let ?t = "\<lparr>context_ptr = length h, release = deallocate, refcount = 2, fired = 0\<rparr>"
  let ?w = "\<lparr>heap = h @ [Some (SharedArrays ?v1 ?v2)], owner = ?t\<rparr>"
  let ?w1 = "\<lparr>heap = h @ [Some (SharedArrays ?v1 ?v2)], owner = ?t\<lparr>refcount := 1\<rparr>\<rparr>"
  let ?w2 = "\<lparr>heap = h @ [None], owner = ?t\<lparr>refcount := 0, fired := 1\<rparr>\<rparr>"
  have r: "return_multiple_arrays h = Inr (?a1, ?a2, ?w)"
    by (rule return_multiple_arrays_result)
  have d1: "drop_token ?w = Inr ?w1" by (simp add: drop_token_def)
  have d2: "drop_token ?w1 = Inr ?w2" by (simp add: drop_token_def deallocate_def)
  have rest: "refcount (owner ?w) = 2" "deref (heap ?w) (data ?a1) = Some ?v1"
    "fired (owner ?w1) = 0" "heap ?w1 = heap ?w" "deref (heap ?w1) (data ?a2) = Some ?v2"
    "fired (owner ?w2) = 1" "heap ?w2 = h @ [None]"
    "deref (heap ?w2) (data ?a1) = None" "deref (heap ?w2) (data ?a2) = None"
    by simp_all
  show ?thesis
    by (rule exI[of _ ?a1], rule exI[of _ ?a2], rule exI[of _ ?w], rule exI[of _ ?w1],
        rule exI[of _ ?w2]) (intro conjI r d1 d2 rest)
qed

theorem shared_token_keeps_buffer_alive_witness:
  "\<exists>a1 a2 w w1 w2.
     return_multiple_arrays [] = Inr (a1, a2, w) \<and>
     drop_token w = Inr w1 \<and> fired (owner w1) = 0 \<and>
     deref (heap w1) (data a2) =
       Some [Finite 9, Finite 8, Finite 7, Finite 6, Finite 5,
             Finite 4, Finite 3, Finite 2, Finite 1, Finite 0] \<and>
     drop_token w1 = Inr w2 \<and> fired (owner w2) = 1 \<and> heap w2 = [None]"
  using shared_token_keeps_buffer_alive[of "[]"] by (simp only: append_Nil) blast

section \<open>The column-major adapter\<close>




end
